theory Spec2Isabelle
  imports Main "HOL-Library.Word" "HOL-Library.Sublist"
begin

section \<open>Strings of the host language\<close>

text \<open>
  The text of a document line is a JavaScript string: a sequence of 16-bit code units.
  \<open>slice\<close>, \<open>length\<close> and the regular expressions of \<^verbatim>\<open>extension.ts\<close> (written
  without the \<^verbatim>\<open>u\<close> flag) all count code units. Identifiers and messages that the
  source writes as literals are kept as \<^typ>\<open>string\<close>.
\<close>

type_synonym code_unit = "16 word"
type_synonym jsstring = "code_unit list"

definition slash :: code_unit where "slash = 0x2F"
definition star :: code_unit where "star = 0x2A"

text \<open>The class \<^verbatim>\<open>\s\<close>: the white space and line terminator code points of ECMAScript.\<close>

definition is_space :: "code_unit \<Rightarrow> bool" where
  "is_space c \<longleftrightarrow>
     c = 0x09 \<or> c = 0x0A \<or> c = 0x0B \<or> c = 0x0C \<or> c = 0x0D \<or> c = 0x20 \<or> c = 0xA0 \<or>
     c = 0x1680 \<or> (0x2000 \<le> c \<and> c \<le> 0x200A) \<or> c = 0x2028 \<or> c = 0x2029 \<or>
     c = 0x202F \<or> c = 0x205F \<or> c = 0x3000 \<or> c = 0xFEFF"

definition is_star :: "code_unit \<Rightarrow> bool" where
  "is_star c \<longleftrightarrow> c = star"

text \<open>\<^verbatim>\<open>s.slice(0, n)\<close> and \<^verbatim>\<open>s.slice(n)\<close> for a non-negative integer \<open>n\<close>; both clamp
  \<open>n\<close> to the length of the string.\<close>

definition slice_to :: "jsstring \<Rightarrow> nat \<Rightarrow> jsstring" where
  "slice_to s n = take n s"

definition slice_from :: "jsstring \<Rightarrow> nat \<Rightarrow> jsstring" where
  "slice_from s n = drop n s"

section \<open>Regular expressions\<close>

text \<open>
  The three regular expressions of the source are sequences of terms: a single-character
  atom, a greedy \<^verbatim>\<open>*\<close> over such an atom, and the assertions \<^verbatim>\<open>^\<close> and \<^verbatim>\<open>$\<close>
  (no \<^verbatim>\<open>m\<close> flag: start and end of the input). \<open>matcher\<close> is the backtracking
  matcher of ECMAScript on this fragment: it runs the terms from index \<open>i\<close>, where
  \<open>rest\<close> is the input from \<open>i\<close> on, and returns the end index of the first match
  found, the greedy star trying one more repetition before it tries the continuation.
\<close>

datatype atom = Chr code_unit | Space

datatype rterm = Atom atom | Star atom | Bol | Eol

type_synonym regex = "rterm list"

fun atom_ok :: "atom \<Rightarrow> code_unit \<Rightarrow> bool" where
  "atom_ok (Chr d) c = (c = d)"
| "atom_ok Space c = is_space c"

fun matcher :: "regex \<Rightarrow> nat \<Rightarrow> jsstring \<Rightarrow> nat option" where
  "matcher [] i rest = Some i"
| "matcher (Atom a # ts) i [] = None"
| "matcher (Atom a # ts) i (c # cs) = (if atom_ok a c then matcher ts (Suc i) cs else None)"
| "matcher (Star a # ts) i [] = matcher ts i []"
| "matcher (Star a # ts) i (c # cs) =
     (if atom_ok a c
      then (case matcher (Star a # ts) (Suc i) cs of
              Some e \<Rightarrow> Some e
            | None \<Rightarrow> matcher ts i (c # cs))
      else matcher ts i (c # cs))"
| "matcher (Bol # ts) i rest = (if i = 0 then matcher ts i rest else None)"
| "matcher (Eol # ts) i rest = (if rest = [] then matcher ts i rest else None)"

text \<open>\<^verbatim>\<open>RegExp.prototype.exec\<close> without the \<^verbatim>\<open>g\<close> flag: the match at the leftmost start
  index that has one, as the pair of its start and end indices.\<close>

fun search :: "regex \<Rightarrow> nat \<Rightarrow> jsstring \<Rightarrow> (nat \<times> nat) option" where
  "search ts i [] = (case matcher ts i [] of Some e \<Rightarrow> Some (i, e) | None \<Rightarrow> None)"
| "search ts i (c # cs) =
     (case matcher ts i (c # cs) of Some e \<Rightarrow> Some (i, e) | None \<Rightarrow> search ts (Suc i) cs)"

text \<open>\<^verbatim>\<open>s.match(re)\<close>: \<^verbatim>\<open>null\<close> or the match array, of which the source reads only the
  element \<^verbatim>\<open>[0]\<close>, the matched text.\<close>

definition js_match :: "jsstring \<Rightarrow> regex \<Rightarrow> jsstring option" where
  "js_match s re =
     (case search re 0 s of None \<Rightarrow> None | Some (i, e) \<Rightarrow> Some (take (e - i) (drop i s)))"

text \<open>\<^verbatim>\<open>/^\s*\/\*\*\s*$/\<close>, \<^verbatim>\<open>/\/\**\s*$/\<close> and \<^verbatim>\<open>/^\s*\**\//\<close>.\<close>

definition re_opening :: regex where
  "re_opening = [Bol, Star Space, Atom (Chr slash), Atom (Chr star), Atom (Chr star), Star Space, Eol]"

definition re_prefix :: regex where
  "re_prefix = [Atom (Chr slash), Star (Chr star), Star Space, Eol]"

definition re_suffix :: regex where
  "re_suffix = [Bol, Star Space, Star (Chr star), Atom (Chr slash)]"

section \<open>Positions and ranges of the editor\<close>

datatype error = IllegalArgument | TypeError

record position =
  line :: nat
  character :: nat

text \<open>\<^verbatim>\<open>Position.translate(lineDelta, characterDelta)\<close> builds a new position and the
  constructor rejects a negative line or character.\<close>

definition translate :: "position \<Rightarrow> int \<Rightarrow> int \<Rightarrow> error + position" where
  "translate p lineDelta characterDelta =
     (let l = int (line p) + lineDelta; c = int (character p) + characterDelta
      in if l < 0 \<or> c < 0 then Inl IllegalArgument
         else Inr \<lparr>line = nat l, character = nat c\<rparr>)"

definition isBefore :: "position \<Rightarrow> position \<Rightarrow> bool" where
  "isBefore p q \<longleftrightarrow> line p < line q \<or> (line p = line q \<and> character p < character q)"

definition isBeforeOrEqual :: "position \<Rightarrow> position \<Rightarrow> bool" where
  "isBeforeOrEqual p q \<longleftrightarrow> line p < line q \<or> (line p = line q \<and> character p \<le> character q)"

record vrange =
  start :: position
  end_pos :: position

text \<open>\<^verbatim>\<open>new Range(a, b)\<close> orders its two positions.\<close>

definition Range :: "position \<Rightarrow> position \<Rightarrow> vrange" where
  "Range a b = (if isBefore a b then \<lparr>start = a, end_pos = b\<rparr> else \<lparr>start = b, end_pos = a\<rparr>)"

section \<open>The completion item\<close>

datatype completionItemKind = Text | Keyword | Snippet

record command =
  title :: string
  command :: string

record completionItem =
  label :: string
  kind :: completionItemKind
  insertText :: string
  sortText :: string
  item_range :: vrange
  item_command :: command

text \<open>\<^verbatim>\<open>retrieveRange\<close>: the length of \<^verbatim>\<open>prefix[0]\<close> to the left, of \<^verbatim>\<open>suffix[0]\<close> to the
  right, \<open>0\<close> where \<^verbatim>\<open>match\<close> returned \<^verbatim>\<open>null\<close>.\<close>

definition retrieveRange :: "jsstring \<Rightarrow> position \<Rightarrow> error + vrange" where
  "retrieveRange ln pos =
     (let prefix = js_match (slice_to ln (character pos)) re_prefix;
          suffix = js_match (slice_from ln (character pos)) re_suffix
      in case translate pos 0 (case prefix of Some p0 \<Rightarrow> - int (length p0) | None \<Rightarrow> 0) of
           Inl e \<Rightarrow> Inl e
         | Inr st \<Rightarrow>
             (case translate pos 0 (case suffix of Some s0 \<Rightarrow> int (length s0) | None \<Rightarrow> 0) of
                Inl e \<Rightarrow> Inl e
              | Inr en \<Rightarrow> Inr (Range st en)))"

text \<open>The constructor of \<^verbatim>\<open>JsdocCompletionItem\<close>; it throws where \<^verbatim>\<open>retrieveRange\<close> does.\<close>

definition JsdocCompletionItem :: "jsstring \<Rightarrow> position \<Rightarrow> error + completionItem" where
  "JsdocCompletionItem ln pos =
     (case retrieveRange ln pos of
        Inl e \<Rightarrow> Inl e
      | Inr r \<Rightarrow>
          Inr \<lparr>label = ''/** Autogenerated JSDoc */'', kind = Snippet,
               insertText = '''', sortText = [CHR 0x00], item_range = r,
               item_command = \<lparr>title = ''Generate JSDoc'', command = ''jsdoc-generator.generateJsdoc''\<rparr>\<rparr>)"

section \<open>The completion provider\<close>

text \<open>A document is its lines; \<^verbatim>\<open>lineAt(n)\<close> rejects a line number outside the document.\<close>

type_synonym textDocument = "jsstring list"

definition lineAt :: "textDocument \<Rightarrow> nat \<Rightarrow> error + jsstring" where
  "lineAt document n = (if n < length document then Inr (document ! n) else Inl IllegalArgument)"

definition provideCompletionItems ::
  "textDocument \<Rightarrow> position \<Rightarrow> error + completionItem list option" where
  "provideCompletionItems document pos =
     (case lineAt document (line pos) of
        Inl e \<Rightarrow> Inl e
      | Inr ln \<Rightarrow>
          (let prefix = slice_to ln (character pos)
           in if js_match prefix re_opening \<noteq> None
              then (case JsdocCompletionItem ln pos of
                      Inl e \<Rightarrow> Inl e
                    | Inr item \<Rightarrow> Inr (Some [item]))
              else Inr None))"

section \<open>The module state, the host and the generator\<close>

text \<open>
  The classes \<^verbatim>\<open>JsdocGenerator\<close> and \<^verbatim>\<open>TextFile\<close> are imported by \<^verbatim>\<open>extension.ts\<close>
  and defined elsewhere. Of them the module only constructs objects and calls the three
  entry points of the generator, so an object is its identity (the index of its
  allocation), a \<^verbatim>\<open>TextFile\<close> is the arguments of its constructor, and a call of an entry
  point is an event of the trace.
\<close>

type_synonym uri = string

datatype textEditor = TextEditor nat
datatype progress = Progress nat
datatype cancellationToken = CancellationToken nat
datatype engine = Engine nat
datatype workspaceEdit = WorkspaceEdit nat

datatype textFile = TextFile_edit workspaceEdit uri | TextFile_editor textEditor

datatype progressLocation = SourceControl | Window | Notification

record progressOptions =
  location :: progressLocation
  ptitle :: string
  cancellable :: bool

datatype generatorCall =
    GenerateJsdoc progress cancellationToken textEditor
  | GenerateJsdocFile progress cancellationToken textFile
  | GenerateJsdocWorkspace progress cancellationToken "uri option"

text \<open>What the task of a progress returns: \<^verbatim>\<open>Promise.resolve()\<close> or the promise of a
  generator call.\<close>

datatype thenable = Promise_resolve | Promise_of engine generatorCall

datatype event =
    WithProgress progressOptions progress cancellationToken
  | New_JsdocGenerator engine
  | New_WorkspaceEdit workspaceEdit
  | Call engine generatorCall
  | ShowErrorMessage string
  | TaskReturned thenable

datatype customTag = CustomTag string "string option"

datatype configValue = CBool bool | CString string | CNumber int | CTags "customTag list"

text \<open>\<open>jsdocGenerator\<close> is the module-level variable of the source (\<open>None\<close> while it is
  \<^verbatim>\<open>undefined\<close>); the other fields are the host: the active editor, the settings, the
  allocation counter and the trace of calls made so far.\<close>

record world =
  jsdocGenerator :: "engine option"
  activeTextEditor :: "textEditor option"
  configuration :: "string \<rightharpoonup> configValue"
  nextObject :: nat
  trace :: "event list"

definition emit :: "event \<Rightarrow> world \<Rightarrow> world" where
  "emit ev w = w\<lparr>trace := trace w @ [ev]\<rparr>"

definition lazyInstantiateJsdocGenerator :: "world \<Rightarrow> world" where
  "lazyInstantiateJsdocGenerator w =
     (case jsdocGenerator w of
        None \<Rightarrow>
          emit (New_JsdocGenerator (Engine (nextObject w)))
            (w\<lparr>jsdocGenerator := Some (Engine (nextObject w)), nextObject := Suc (nextObject w)\<rparr>)
      | Some g \<Rightarrow> w)"

text \<open>A call \<^verbatim>\<open>jsdocGenerator.m(...)\<close>: the receiver is the module variable as it is at the
  call, and the result is the promise of that call.\<close>

definition call_generator :: "generatorCall \<Rightarrow> world \<Rightarrow> (error + thenable) \<times> world" where
  "call_generator c w =
     (case jsdocGenerator w of
        None \<Rightarrow> (Inl TypeError, w)
      | Some g \<Rightarrow> (Inr (Promise_of g c), emit (Call g c) w))"

definition showErrorMessage :: "string \<Rightarrow> world \<Rightarrow> world" where
  "showErrorMessage msg w = emit (ShowErrorMessage msg) w"

definition new_WorkspaceEdit :: "world \<Rightarrow> workspaceEdit \<times> world" where
  "new_WorkspaceEdit w =
     (WorkspaceEdit (nextObject w),
      emit (New_WorkspaceEdit (WorkspaceEdit (nextObject w))) (w\<lparr>nextObject := Suc (nextObject w)\<rparr>))"

text \<open>\<^verbatim>\<open>vscode.window.withProgress(options, task)\<close>: the host makes a progress reporter and a
  cancellation token, runs the task with them and hands back what the task returned.\<close>

type_synonym task = "progress \<Rightarrow> cancellationToken \<Rightarrow> world \<Rightarrow> (error + thenable) \<times> world"

definition withProgress :: "progressOptions \<Rightarrow> task \<Rightarrow> world \<Rightarrow> (error + thenable) \<times> world" where
  "withProgress options tsk w =
     (let p = Progress (nextObject w);
          t = CancellationToken (Suc (nextObject w));
          (r, w') = tsk p t (emit (WithProgress options p t) (w\<lparr>nextObject := nextObject w + 2\<rparr>))
      in case r of
           Inl e \<Rightarrow> (Inl e, w')
         | Inr th \<Rightarrow> (Inr th, emit (TaskReturned th) w'))"

subsection \<open>The four command handlers\<close>

definition generateJsdoc_task :: task where
  "generateJsdoc_task p t w =
     (let w1 = lazyInstantiateJsdocGenerator w
      in case activeTextEditor w1 of
           Some ed \<Rightarrow> call_generator (GenerateJsdoc p t ed) w1
         | None \<Rightarrow>
             (Inr Promise_resolve,
              showErrorMessage ''Unable to generate JSDoc: no editor has been selected.'' w1))"

definition generateJsdocFile_task :: "uri option \<Rightarrow> task" where
  "generateJsdocFile_task file p t w =
     (let w1 = lazyInstantiateJsdocGenerator w
      in case file of
           Some f \<Rightarrow>
             (let (we, w2) = new_WorkspaceEdit w1
              in call_generator (GenerateJsdocFile p t (TextFile_edit we f)) w2)
         | None \<Rightarrow>
             (case activeTextEditor w1 of
                Some ed \<Rightarrow> call_generator (GenerateJsdocFile p t (TextFile_editor ed)) w1
              | None \<Rightarrow>
                  (Inr Promise_resolve,
                   showErrorMessage ''Unable to generate JSDoc: no valid file has been selected.'' w1)))"

definition generateJsdocFolder_task :: "uri option \<Rightarrow> task" where
  "generateJsdocFolder_task folder p t w =
     call_generator (GenerateJsdocWorkspace p t folder) (lazyInstantiateJsdocGenerator w)"

definition generateJsdocWorkspace_task :: task where
  "generateJsdocWorkspace_task p t w =
     call_generator (GenerateJsdocWorkspace p t None) (lazyInstantiateJsdocGenerator w)"

text \<open>A handler calls \<^verbatim>\<open>withProgress\<close> and drops its result; the handler of the node and
  workspace commands takes no argument.\<close>

type_synonym handler = "uri option \<Rightarrow> world \<Rightarrow> world"

definition notification :: "string \<Rightarrow> progressOptions" where
  "notification ttl = \<lparr>location = Notification, ptitle = ttl, cancellable = True\<rparr>"

definition generateJsdoc_handler :: handler where
  "generateJsdoc_handler arg w = snd (withProgress (notification ''JSDocGen (node)'') generateJsdoc_task w)"

definition generateJsdocFile_handler :: handler where
  "generateJsdocFile_handler file w =
     snd (withProgress (notification ''JSDocGen (file)'') (generateJsdocFile_task file) w)"

definition generateJsdocFolder_handler :: handler where
  "generateJsdocFolder_handler folder w =
     snd (withProgress (notification ''JSDocGen (folder)'') (generateJsdocFolder_task folder) w)"

definition generateJsdocWorkspace_handler :: handler where
  "generateJsdocWorkspace_handler arg w =
     snd (withProgress (notification ''JSDocGen (workspace)'') generateJsdocWorkspace_task w)"

subsection \<open>Activation\<close>

record documentFilter =
  scheme :: string
  language :: string

datatype registration =
    Command string handler
  | CompletionItemProvider "documentFilter list"
      "textDocument \<Rightarrow> position \<Rightarrow> error + completionItem list option" "string list"

text \<open>\<open>activate\<close> makes the five registrations and pushes their disposables onto
  \<^verbatim>\<open>context.subscriptions\<close>, the commands first. A disposable stands for its registration.\<close>

definition activate :: "registration list \<Rightarrow> registration list" where
  "activate subscriptions =
     (let generateJsdocAutocompletion =
            CompletionItemProvider
              [\<lparr>scheme = ''file'', language = ''typescript''\<rparr>,
               \<lparr>scheme = ''file'', language = ''typescriptreact''\<rparr>,
               \<lparr>scheme = ''file'', language = ''javascript''\<rparr>,
               \<lparr>scheme = ''file'', language = ''javascriptreact''\<rparr>]
              provideCompletionItems [''/'', ''*''];
          generateJsdoc = Command ''jsdoc-generator.generateJsdoc'' generateJsdoc_handler;
          generateJsdocFile = Command ''jsdoc-generator.generateJsdocFile'' generateJsdocFile_handler;
          generateJsdocFolder =
            Command ''jsdoc-generator.generateJsdocFolder'' generateJsdocFolder_handler;
          generateJsdocWorkspace =
            Command ''jsdoc-generator.generateJsdocWorkspace'' generateJsdocWorkspace_handler
      in subscriptions @
           [generateJsdoc, generateJsdocFile, generateJsdocFolder, generateJsdocWorkspace,
            generateJsdocAutocompletion])"

fun commands :: "registration list \<Rightarrow> (string \<times> handler) list" where
  "commands [] = []"
| "commands (Command name h # rs) = (name, h) # commands rs"
| "commands (CompletionItemProvider sel prov trig # rs) = commands rs"

text \<open>\<^verbatim>\<open>vscode.commands.executeCommand\<close>: the handler registered under the name runs.\<close>

definition executeCommand :: "registration list \<Rightarrow> string \<Rightarrow> uri option \<Rightarrow> world \<Rightarrow> world option" where
  "executeCommand regs name arg w =
     (case map_of (commands regs) name of None \<Rightarrow> None | Some h \<Rightarrow> Some (h arg w))"

subsection \<open>Reading the trace\<close>

text \<open>The events an invocation added to the trace, and their projections.\<close>

definition added :: "world \<Rightarrow> world \<Rightarrow> event list" where
  "added w w' = drop (length (trace w)) (trace w')"

fun calls :: "event list \<Rightarrow> (engine \<times> generatorCall) list" where
  "calls [] = []"
| "calls (Call g c # es) = (g, c) # calls es"
| "calls (e # es) = calls es"

fun errorMessages :: "event list \<Rightarrow> string list" where
  "errorMessages [] = []"
| "errorMessages (ShowErrorMessage m # es) = m # errorMessages es"
| "errorMessages (e # es) = errorMessages es"

fun returned :: "event list \<Rightarrow> thenable list" where
  "returned [] = []"
| "returned (TaskReturned th # es) = th # returned es"
| "returned (e # es) = returned es"

fun progresses :: "event list \<Rightarrow> (progressOptions \<times> progress \<times> cancellationToken) list" where
  "progresses [] = []"
| "progresses (WithProgress opts p t # es) = (opts, p, t) # progresses es"
| "progresses (e # es) = progresses es"

fun created :: "event list \<Rightarrow> engine list" where
  "created [] = []"
| "created (New_JsdocGenerator g # es) = g # created es"
| "created (e # es) = created es"

fun workspaceEdits :: "event list \<Rightarrow> workspaceEdit list" where
  "workspaceEdits [] = []"
| "workspaceEdits (New_WorkspaceEdit we # es) = we # workspaceEdits es"
| "workspaceEdits (e # es) = workspaceEdits es"

section \<open>The settings\<close>

datatype configKey =
    K_descriptionPlaceholder | K_author | K_includeDate | K_includeTime | K_includeTypes
  | K_includeParenthesisForMultipleTypes | K_descriptionForConstructors
  | K_functionVariablesAsFunctions | K_includeExport | K_includeAsync | K_customTags
  | K_tagValueColumnStart | K_tagNameColumnStart | K_tagDescriptionColumnStart
  | K_generativeApiKey | K_generativeModel | K_generativeLanguage
  | K_generateDescriptionForTypeParameters | K_generateDescriptionForParameters
  | K_generateDescriptionForReturns

fun key_name :: "configKey \<Rightarrow> string" where
  "key_name K_descriptionPlaceholder = ''descriptionPlaceholder''"
| "key_name K_author = ''author''"
| "key_name K_includeDate = ''includeDate''"
| "key_name K_includeTime = ''includeTime''"
| "key_name K_includeTypes = ''includeTypes''"
| "key_name K_includeParenthesisForMultipleTypes = ''includeParenthesisForMultipleTypes''"
| "key_name K_descriptionForConstructors = ''descriptionForConstructors''"
| "key_name K_functionVariablesAsFunctions = ''functionVariablesAsFunctions''"
| "key_name K_includeExport = ''includeExport''"
| "key_name K_includeAsync = ''includeAsync''"
| "key_name K_customTags = ''customTags''"
| "key_name K_tagValueColumnStart = ''tagValueColumnStart''"
| "key_name K_tagNameColumnStart = ''tagNameColumnStart''"
| "key_name K_tagDescriptionColumnStart = ''tagDescriptionColumnStart''"
| "key_name K_generativeApiKey = ''generativeApiKey''"
| "key_name K_generativeModel = ''generativeModel''"
| "key_name K_generativeLanguage = ''generativeLanguage''"
| "key_name K_generateDescriptionForTypeParameters = ''generateDescriptionForTypeParameters''"
| "key_name K_generateDescriptionForParameters = ''generateDescriptionForParameters''"
| "key_name K_generateDescriptionForReturns = ''generateDescriptionForReturns''"

text \<open>\<^verbatim>\<open>vscode.workspace.getConfiguration()\<close> reads the settings as they are at the call;
  \<^verbatim>\<open>get(section, defaultValue)\<close> on the result returns the default where the section has
  no value.\<close>

definition getConfiguration :: "world \<Rightarrow> (string \<rightharpoonup> configValue) \<times> world" where
  "getConfiguration w = (configuration w, w)"

definition get_section :: "(string \<rightharpoonup> configValue) \<Rightarrow> string \<Rightarrow> configValue \<Rightarrow> configValue" where
  "get_section conf section defaultValue =
     (case conf section of None \<Rightarrow> defaultValue | Some v \<Rightarrow> v)"

definition getConfig :: "configKey \<Rightarrow> configValue \<Rightarrow> world \<Rightarrow> configValue \<times> world" where
  "getConfig property defaultValue w =
     (let (conf, w') = getConfiguration w
      in (get_section conf (''jsdoc-generator.'' @ key_name property) defaultValue, w'))"

section \<open>Sequences of invocations\<close>

text \<open>The module as it is loaded: the variable \<open>jsdocGenerator\<close> is declared without a
  value.\<close>

definition world0 :: world where
  "world0 = \<lparr>jsdocGenerator = None, activeTextEditor = None, configuration = Map.empty,
              nextObject = 0, trace = []\<rparr>"

text \<open>An invocation is a command name, its argument and the editor that is active when the
  host runs it.\<close>

type_synonym invocation = "string \<times> uri option \<times> textEditor option"

fun run :: "registration list \<Rightarrow> invocation list \<Rightarrow> world \<Rightarrow> world option" where
  "run regs [] w = Some w"
| "run regs ((name, arg, ed) # rest) w =
     (case executeCommand regs name arg (w\<lparr>activeTextEditor := ed\<rparr>) of
        None \<Rightarrow> None
      | Some w' \<Rightarrow> run regs rest w')"

section \<open>The behaviour of the completion in words\<close>

text \<open>
  The three shapes of text the completion looks for, written on the text itself:
  \<^item> \<open>jsdoc_opening\<close>: optional white space, then \<^verbatim>\<open>/**\<close>, then optional white space;
  \<^item> \<open>slash_stars_spaces\<close>: \<^verbatim>\<open>/\<close>, then zero or more \<^verbatim>\<open>*\<close>, then white space to the end;
  \<^item> \<open>spaces_stars_slash\<close>: white space, then zero or more \<^verbatim>\<open>*\<close>, then \<^verbatim>\<open>/\<close>.
  \<open>longest_len P cands\<close> is the length of the longest of the candidates that has the shape
  \<open>P\<close>, and \<open>0\<close> when none has. The shapes are written so that they can be computed;
  \<open>jsdoc_opening_iff\<close>, \<open>slash_stars_spaces_iff\<close> and \<open>spaces_stars_slash_iff\<close> below
  give each as a decomposition of the text.
\<close>

definition jsdoc_opening :: "jsstring \<Rightarrow> bool" where
  "jsdoc_opening p \<longleftrightarrow>
     (let r = dropWhile is_space p
      in take 3 r = [slash, star, star] \<and> list_all is_space (drop 3 r))"

definition slash_stars_spaces :: "jsstring \<Rightarrow> bool" where
  "slash_stars_spaces t \<longleftrightarrow>
     (case t of [] \<Rightarrow> False | c # cs \<Rightarrow> c = slash \<and> list_all is_space (dropWhile is_star cs))"

definition spaces_stars_slash :: "jsstring \<Rightarrow> bool" where
  "spaces_stars_slash t \<longleftrightarrow> dropWhile is_star (dropWhile is_space t) = [slash]"

definition longest_len :: "(jsstring \<Rightarrow> bool) \<Rightarrow> jsstring list \<Rightarrow> nat" where
  "longest_len P cands = Max (set (0 # map length (filter P cands)))"

text \<open>The shifts of \<^verbatim>\<open>retrieveRange\<close> in these words: the longest suffix of the text before
  the cursor, the longest prefix of the text from the cursor on.\<close>

definition start_shift :: "jsstring \<Rightarrow> position \<Rightarrow> nat" where
  "start_shift ln pos = longest_len slash_stars_spaces (suffixes (slice_to ln (character pos)))"

definition end_shift :: "jsstring \<Rightarrow> position \<Rightarrow> nat" where
  "end_shift ln pos = longest_len spaces_stars_slash (prefixes (slice_from ln (character pos)))"

text \<open>An ASCII literal as a string of code units, for examples.\<close>

definition ascii :: "string \<Rightarrow> jsstring" where
  "ascii s = map (\<lambda>c. of_nat (of_char c)) s"

subsection \<open>Auxiliary notions of the proofs\<close>

definition match_len :: "(nat \<times> nat) option \<Rightarrow> nat" where
  "match_len r = (case r of None \<Rightarrow> 0 | Some (i, e) \<Rightarrow> e - i)"

definition suffix_cond :: "jsstring \<Rightarrow> bool" where
  "suffix_cond s \<longleftrightarrow> take 1 (dropWhile is_star (dropWhile is_space s)) = [slash]"

definition suffix_len :: "jsstring \<Rightarrow> nat" where
  "suffix_len s =
     length (takeWhile is_space s) + length (takeWhile is_star (dropWhile is_space s)) + 1"

section \<open>The rendering of types in the specification\<close>

text \<open>
  The printer of types belongs to the class \<^verbatim>\<open>JsdocGenerator\<close> and its helpers, which are
  not among the source files; it follows the specification. The setting
  \<open>includeParenthesisForMultipleTypes\<close> of the interface \<^verbatim>\<open>Configuration\<close> is the
  argument \<open>flag\<close>.
\<close>

text \<open>Modelled from the spec: \<open>TypeDescriptor\<close> (section 3), a recursive value for a rendered
  type. The Type Inferencer that builds and prints it is not among the source files.\<close>

datatype typeDescriptor =
    Primitive string
  | Array typeDescriptor
  | Union "typeDescriptor list"
  | Intersection "typeDescriptor list"
  | FunctionType "typeDescriptor list" typeDescriptor
  | Generic string "typeDescriptor list"
  | Reference string
  | Unknown

text \<open>Modelled from the spec: the mark of a type that is optional or required (section
  4.2), a modifier that trails the type.\<close>

datatype modifier = Plain | Optional | Required

text \<open>Modelled from the spec: the members of a composite type are printed in their order
  (section 3), here with a separator between them.\<close>

fun join :: "string \<Rightarrow> string list \<Rightarrow> string" where
  "join sep [] = ''''"
| "join sep [x] = x"
| "join sep (x # y # ys) = x @ sep @ join sep (y # ys)"

text \<open>Modelled from the spec: the parentheses of section 4.2.\<close>

definition parens :: "bool \<Rightarrow> string \<Rightarrow> string" where
  "parens b s = (if b then ''('' @ s @ '')'' else s)"

text \<open>Modelled from the spec: the rendering rule of section 4.2. A union or intersection is
  put in parentheses when \<open>includeParenthesisForMultipleTypes\<close> is enabled (\<open>flag\<close>), or
  unconditionally (\<open>forced\<close>) when it is the element of an array or carries a modifier. The
  separators, the array suffix and the text of \<open>Unknown\<close> are those of the type syntax the
  comments of the source use (\<^verbatim>\<open>{('gpt-3.5-turbo' | 'gpt-4')}\<close>, \<^verbatim>\<open>{CustomTag[]}\<close>).\<close>

fun render_type :: "bool \<Rightarrow> bool \<Rightarrow> typeDescriptor \<Rightarrow> string" where
  "render_type flag forced (Primitive n) = n"
| "render_type flag forced (Array e) = render_type flag True e @ ''[]''"
| "render_type flag forced (Union ms) =
     parens (flag \<or> forced) (join '' | '' (map (render_type flag False) ms))"
| "render_type flag forced (Intersection ms) =
     parens (flag \<or> forced) (join '' & '' (map (render_type flag False) ms))"
| "render_type flag forced (FunctionType ps r) =
     ''('' @ join '', '' (map (render_type flag False) ps) @ '') => '' @ render_type flag False r"
| "render_type flag forced (Generic b args) =
     b @ ''<'' @ join '', '' (map (render_type flag False) args) @ ''>''"
| "render_type flag forced (Reference n) = n"
| "render_type flag forced Unknown = ''any''"

text \<open>Modelled from the spec: a type with its modifier (section 4.2).\<close>

definition render_marked :: "bool \<Rightarrow> modifier \<Rightarrow> typeDescriptor \<Rightarrow> string" where
  "render_marked flag m td =
     (case m of
        Plain \<Rightarrow> render_type flag False td
      | Optional \<Rightarrow> render_type flag True td @ ''?''
      | Required \<Rightarrow> render_type flag True td @ ''!'')"

text \<open>Modelled from the spec: the members of a union or intersection as they are printed
  inside the composite, with their separator.\<close>

fun members_text :: "bool \<Rightarrow> typeDescriptor \<Rightarrow> string" where
  "members_text flag (Union ms) = join '' | '' (map (render_type flag False) ms)"
| "members_text flag (Intersection ms) = join '' & '' (map (render_type flag False) ms)"
| "members_text flag td = render_type flag False td"

text \<open>Modelled from the spec: the Union and Intersection descriptors (section 3).\<close>

fun is_composite :: "typeDescriptor \<Rightarrow> bool" where
  "is_composite (Union ms) = True"
| "is_composite (Intersection ms) = True"
| "is_composite td = False"

text \<open>The invariant of the module variable: unset and nothing created or called yet, or
  set to the one engine created so far, on which every call was made.\<close>

definition shared_engine :: "world \<Rightarrow> bool" where
  "shared_engine w \<longleftrightarrow>
     (case jsdocGenerator w of
        None \<Rightarrow> created (trace w) = [] \<and> calls (trace w) = []
      | Some g \<Rightarrow> created (trace w) = [g] \<and> list_all (\<lambda>(g', c). g' = g) (calls (trace w)))"

section \<open>What the regular expressions match\<close>

lemma not_space_slash: "\<not> is_space slash" by (simp add: is_space_def slash_def)
lemma not_space_star: "\<not> is_space star" by (simp add: is_space_def star_def)
lemma star_neq_slash: "star \<noteq> slash" by (simp add: slash_def star_def)
lemma not_star_slash: "\<not> is_star slash" by (simp add: is_star_def slash_def star_def)

lemma matcher_spaces_eol:
  "matcher [Star Space, Eol] i s = (if list_all is_space s then Some (i + length s) else None)"
  by (induction s arbitrary: i) auto

lemma matcher_stars_spaces_eol:
  "matcher [Star (Chr star), Star Space, Eol] i s =
     (if list_all is_space (dropWhile is_star s) then Some (i + length s) else None)"
  by (induction s arbitrary: i) (auto simp: matcher_spaces_eol is_star_def not_space_star)

lemma matcher_re_prefix:
  "matcher re_prefix i s = (if slash_stars_spaces s then Some (i + length s) else None)"
  by (cases s) (auto simp: re_prefix_def slash_stars_spaces_def matcher_stars_spaces_eol)

lemma matcher_stars_slash:
  "matcher [Star (Chr star), Atom (Chr slash)] i s =
     (if take 1 (dropWhile is_star s) = [slash]
      then Some (i + length (takeWhile is_star s) + 1) else None)"
  by (induction s arbitrary: i) (auto simp: is_star_def star_neq_slash)

lemma matcher_spaces_stars_slash:
  "matcher [Star Space, Star (Chr star), Atom (Chr slash)] i s =
     (if take 1 (dropWhile is_star (dropWhile is_space s)) = [slash]
      then Some (i + length (takeWhile is_space s)
                   + length (takeWhile is_star (dropWhile is_space s)) + 1)
      else None)"
  by (induction s arbitrary: i)
     (auto simp: matcher_stars_slash is_star_def not_space_star not_space_slash star_neq_slash)

lemma matcher_opening_tail:
  "matcher [Atom (Chr slash), Atom (Chr star), Atom (Chr star), Star Space, Eol] i s =
     (if take 3 s = [slash, star, star] \<and> list_all is_space (drop 3 s)
      then Some (i + length s) else None)"
  apply (cases s; simp)
  subgoal for a s1 apply (cases s1; simp)
    subgoal for b s2 by (cases s2; simp add: matcher_spaces_eol)
    done
  done

lemma matcher_spaces_opening:
  "matcher [Star Space, Atom (Chr slash), Atom (Chr star), Atom (Chr star), Star Space, Eol] i s =
     (if jsdoc_opening s then Some (i + length s) else None)"
proof (induction s arbitrary: i)
  case Nil
  show ?case by (simp add: jsdoc_opening_def)
next
  case (Cons c cs)
  show ?case
  proof (cases "is_space c")
    case True
    then have ns: "c \<noteq> slash"
      using not_space_slash by auto
    have jo: "jsdoc_opening (c # cs) = jsdoc_opening cs"
      using True by (simp add: jsdoc_opening_def)
    show ?thesis
      using True ns Cons.IH [of "Suc i"] by (simp add: jo)
  next
    case False
    have "matcher [Star Space, Atom (Chr slash), Atom (Chr star), Atom (Chr star), Star Space, Eol] i (c # cs)
        = matcher [Atom (Chr slash), Atom (Chr star), Atom (Chr star), Star Space, Eol] i (c # cs)"
      using False by simp
    also have "\<dots> = (if take 3 (c # cs) = [slash, star, star] \<and> list_all is_space (drop 3 (c # cs))
                        then Some (i + length (c # cs)) else None)"
      by (rule matcher_opening_tail)
    also have "\<dots> = (if jsdoc_opening (c # cs) then Some (i + length (c # cs)) else None)"
      using False by (simp add: jsdoc_opening_def)
    finally show ?thesis .
  qed
qed

lemma search_bol_later: "0 < i \<Longrightarrow> search (Bol # ts) i s = None"
  by (induction s arbitrary: i) auto

lemma search_bol: "search (Bol # ts) 0 s = (case matcher ts 0 s of Some e \<Rightarrow> Some (0, e) | None \<Rightarrow> None)"
  by (cases s) (auto simp: search_bol_later split: option.splits)

lemma js_match_re_opening: "js_match p re_opening \<noteq> None \<longleftrightarrow> jsdoc_opening p"
  by (simp add: js_match_def re_opening_def search_bol matcher_spaces_opening)

lemma longest_len_none: "\<forall>t\<in>set cands. \<not> P t \<Longrightarrow> longest_len P cands = 0"
  by (simp add: longest_len_def filter_False)

lemma longest_len_top:
  assumes t: "t \<in> set cands" "P t" and top: "\<And>u. u \<in> set cands \<Longrightarrow> P u \<Longrightarrow> length u \<le> length t"
  shows "longest_len P cands = length t"
proof -
  let ?A = "set (0 # map length (filter P cands))"
  have fin: "finite ?A" by (rule finite_set)
  have mem: "length t \<in> ?A" using t by simp
  have ub: "y \<le> length t" if "y \<in> ?A" for y
  proof -
    from that have "y = 0 \<or> (\<exists>u. u \<in> set cands \<and> P u \<and> y = length u)" by auto
    then show ?thesis using top by blast
  qed
  show ?thesis unfolding longest_len_def using fin ub mem by (rule Max_eqI)
qed

lemma longest_len_drop_last: "\<not> P x \<Longrightarrow> longest_len P (xs @ [x]) = longest_len P xs"
  by (simp add: longest_len_def)

lemma search_re_prefix_len:
  "match_len (search re_prefix i s) = longest_len slash_stars_spaces (suffixes s)"
proof (induction s arbitrary: i)
  case Nil
  show ?case
    by (simp add: matcher_re_prefix match_len_def slash_stars_spaces_def longest_len_def)
next
  case (Cons c cs)
  show ?case
  proof (cases "slash_stars_spaces (c # cs)")
    case True
    have "longest_len slash_stars_spaces (suffixes (c # cs)) = length (c # cs)"
    proof (rule longest_len_top)
      show "c # cs \<in> set (suffixes (c # cs))" by simp
      show "slash_stars_spaces (c # cs)" by (rule True)
      show "length u \<le> length (c # cs)" if "u \<in> set (suffixes (c # cs))" for u
      proof -
        from that have "suffix u (c # cs)" by (simp only: in_set_suffixes)
        then show ?thesis by (rule suffix_length_le)
      qed
    qed
    then show ?thesis using True by (simp add: matcher_re_prefix match_len_def)
  next
    case False
    then show ?thesis
      using Cons.IH [of "Suc i"] by (simp add: matcher_re_prefix longest_len_drop_last)
  qed
qed

lemma search_re_prefix_bounds:
  "search re_prefix i s = Some (j, e) \<Longrightarrow> i \<le> j \<and> e = i + length s"
proof (induction s arbitrary: i)
  case Nil
  then show ?case by (simp add: matcher_re_prefix split: if_splits)
next
  case (Cons c cs)
  show ?case
  proof (cases "slash_stars_spaces (c # cs)")
    case True
    then show ?thesis using Cons.prems by (simp add: matcher_re_prefix)
  next
    case False
    then have "search re_prefix (Suc i) cs = Some (j, e)"
      using Cons.prems by (simp add: matcher_re_prefix)
    from Cons.IH [OF this] show ?thesis by simp
  qed
qed

lemma js_match_re_prefix_len:
  "(case js_match s re_prefix of Some p0 \<Rightarrow> length p0 | None \<Rightarrow> 0) = longest_len slash_stars_spaces (suffixes s)"
proof (cases "search re_prefix 0 s")
  case None
  then show ?thesis using search_re_prefix_len [of 0 s] by (simp add: js_match_def match_len_def)
next
  case (Some r)
  obtain j e where r: "r = (j, e)" by (cases r)
  have "e = length s" using search_re_prefix_bounds [of 0 s j e] Some r by simp
  then show ?thesis using search_re_prefix_len [of 0 s] Some r by (simp add: js_match_def match_len_def)
qed

lemma dropWhile_space_stars_slash:
  assumes "list_all is_space w" and "list_all is_star st"
  shows "dropWhile is_space (w @ st @ slash # r) = st @ slash # r"
    and "takeWhile is_space (w @ st @ slash # r) = w"
    and "dropWhile is_star (st @ slash # r) = slash # r"
    and "takeWhile is_star (st @ slash # r) = st"
proof -
  have w: "\<And>x. x \<in> set w \<Longrightarrow> is_space x" and st: "\<And>x. x \<in> set st \<Longrightarrow> is_star x"
    using assms by (simp_all add: list_all_iff)
  have hd1: "takeWhile is_space (st @ slash # r) = []"
    using st [of "hd st"] by (cases st) (simp_all add: not_space_slash not_space_star is_star_def)
  have hd2: "dropWhile is_space (st @ slash # r) = st @ slash # r"
    using st [of "hd st"] by (cases st) (simp_all add: not_space_slash not_space_star is_star_def)
  note hd = hd1 hd2
  show "dropWhile is_space (w @ st @ slash # r) = st @ slash # r"
    using w by (simp add: dropWhile_append2 hd)
  show "takeWhile is_space (w @ st @ slash # r) = w"
    using w by (simp add: takeWhile_append2 hd)
  show "dropWhile is_star (st @ slash # r) = slash # r"
    using st by (simp add: dropWhile_append2 not_star_slash)
  show "takeWhile is_star (st @ slash # r) = st"
    using st by (simp add: takeWhile_append2 not_star_slash)
qed

lemma spaces_stars_slash_decomp:
  assumes "spaces_stars_slash u"
  shows "\<exists>w st. u = w @ st @ [slash] \<and> list_all is_space w \<and> list_all is_star st"
proof -
  let ?w = "takeWhile is_space u" and ?st = "takeWhile is_star (dropWhile is_space u)"
  have "u = ?w @ dropWhile is_space u" by simp
  also have "dropWhile is_space u = ?st @ dropWhile is_star (dropWhile is_space u)" by simp
  also have "dropWhile is_star (dropWhile is_space u) = [slash]"
    using assms by (simp add: spaces_stars_slash_def)
  finally have "u = ?w @ ?st @ [slash]" .
  moreover have "list_all is_space ?w"
    unfolding list_all_iff by (blast dest: set_takeWhileD)
  moreover have "list_all is_star ?st"
    unfolding list_all_iff by (blast dest: set_takeWhileD)
  ultimately show ?thesis by (intro exI conjI)
qed


lemma prefix_spaces_stars_slash:
  assumes "prefix u s" and "spaces_stars_slash u"
  shows "suffix_cond s \<and> length u = suffix_len s"
proof -
  from spaces_stars_slash_decomp [OF assms(2)] obtain w st
    where u: "u = w @ st @ [slash]" and w: "list_all is_space w" and st: "list_all is_star st"
    by blast
  from assms(1) obtain r where "s = u @ r" by (auto simp: prefix_def)
  then have s: "s = w @ st @ slash # r" using u by simp
  show ?thesis
    unfolding suffix_cond_def suffix_len_def s
    by (simp add: dropWhile_space_stars_slash [OF w st] u)
qed

lemma suffix_cond_take:
  assumes "suffix_cond s"
  shows "spaces_stars_slash (take (suffix_len s) s)"
proof -
  let ?w = "takeWhile is_space s" and ?st = "takeWhile is_star (dropWhile is_space s)"
  let ?r = "dropWhile is_star (dropWhile is_space s)"
  have w: "list_all is_space ?w"
    unfolding list_all_iff by (blast dest: set_takeWhileD)
  have st: "list_all is_star ?st"
    unfolding list_all_iff by (blast dest: set_takeWhileD)
  from assms obtain r where r: "?r = slash # r"
    by (cases ?r) (auto simp: suffix_cond_def)
  have "s = ?w @ dropWhile is_space s" by simp
  also have "dropWhile is_space s = ?st @ ?r" by simp
  finally have s: "s = ?w @ ?st @ slash # r" using r by simp
  have "take (suffix_len s) s = take (length (?w @ ?st @ [slash])) (?w @ ?st @ slash # r)"
    unfolding suffix_len_def using s by simp
  also have "\<dots> = ?w @ ?st @ [slash]" by simp
  finally have t: "take (suffix_len s) s = ?w @ ?st @ [slash]" .
  show ?thesis
    unfolding t spaces_stars_slash_def
    using dropWhile_space_stars_slash(1,3) [OF w st, of "[]"] by simp
qed

lemma longest_len_re_suffix:
  "longest_len spaces_stars_slash (prefixes s) = (if suffix_cond s then suffix_len s else 0)"
proof (cases "suffix_cond s")
  case True
  have "longest_len spaces_stars_slash (prefixes s) = length (take (suffix_len s) s)"
  proof (rule longest_len_top)
    show "take (suffix_len s) s \<in> set (prefixes s)" by (simp add: take_is_prefix)
    show "spaces_stars_slash (take (suffix_len s) s)" by (rule suffix_cond_take [OF True])
    show "length u \<le> length (take (suffix_len s) s)"
      if "u \<in> set (prefixes s)" and "spaces_stars_slash u" for u
    proof -
      from that have p: "prefix u s" by (simp only: in_set_prefixes)
      then have "length u \<le> length s" by (rule prefix_length_le)
      moreover have "length u = suffix_len s"
        using prefix_spaces_stars_slash [OF p that(2)] by simp
      ultimately show ?thesis by simp
    qed
  qed
  moreover have "suffix_len s \<le> length s"
    using prefix_spaces_stars_slash [OF take_is_prefix suffix_cond_take [OF True]]
    by (simp add: min_def split: if_splits)
  ultimately show ?thesis using True by simp
next
  case False
  have "longest_len spaces_stars_slash (prefixes s) = 0"
  proof (rule longest_len_none, rule ballI)
    fix u assume "u \<in> set (prefixes s)"
    then have "prefix u s" by (simp only: in_set_prefixes)
    then show "\<not> spaces_stars_slash u"
      using prefix_spaces_stars_slash [of u s] False by blast
  qed
  then show ?thesis using False by simp
qed

lemma matcher_re_suffix_tail:
  "matcher [Star Space, Star (Chr star), Atom (Chr slash)] i s =
     (if suffix_cond s then Some (i + suffix_len s) else None)"
  unfolding matcher_spaces_stars_slash suffix_cond_def suffix_len_def by simp

lemma search_re_suffix:
  "search re_suffix 0 s = (if suffix_cond s then Some (0, suffix_len s) else None)"
  unfolding re_suffix_def search_bol matcher_re_suffix_tail by simp

lemma js_match_re_suffix_len:
  "(case js_match s re_suffix of Some s0 \<Rightarrow> length s0 | None \<Rightarrow> 0)
     = longest_len spaces_stars_slash (prefixes s)"
proof (cases "suffix_cond s")
  case True
  have "suffix_len s \<le> length s"
    using prefix_spaces_stars_slash [OF take_is_prefix suffix_cond_take [OF True]]
    by (simp add: min_def split: if_splits)
  then show ?thesis
    unfolding js_match_def search_re_suffix longest_len_re_suffix using True by simp
next
  case False
  then show ?thesis
    unfolding js_match_def search_re_suffix longest_len_re_suffix by simp
qed

lemma longest_suffix_le: "longest_len P (suffixes s) \<le> length s"
proof -
  let ?A = "set (0 # map length (filter P (suffixes s)))"
  have fin: "finite ?A" by (rule finite_set)
  have ne: "?A \<noteq> {}" by simp
  have ub: "y \<le> length s" if "y \<in> ?A" for y
  proof -
    from that have "y = 0 \<or> (\<exists>u. suffix u s \<and> y = length u)" by auto
    then show ?thesis using suffix_length_le by blast
  qed
  show ?thesis unfolding longest_len_def using fin ne ub by (rule Max.boundedI)
qed

section \<open>The range of the completion item\<close>

lemma translate_left:
  "k \<le> character pos \<Longrightarrow>
     translate pos 0 (- int k) = Inr \<lparr>line = line pos, character = character pos - k\<rparr>"
  by (simp add: translate_def Let_def nat_diff_distrib')

lemma translate_right:
  "translate pos 0 (int j) = Inr \<lparr>line = line pos, character = character pos + j\<rparr>"
  by (simp add: translate_def Let_def nat_add_distrib)

lemma translate_zero: "translate pos 0 0 = Inr \<lparr>line = line pos, character = character pos\<rparr>"
  by (simp add: translate_def Let_def)

lemma start_shift_le: "start_shift ln pos \<le> character pos"
proof -
  have "start_shift ln pos \<le> length (slice_to ln (character pos))"
    unfolding start_shift_def by (rule longest_suffix_le)
  then show ?thesis by (simp add: slice_to_def)
qed

lemma prefix_delta:
  "(case js_match (slice_to ln (character pos)) re_prefix of Some p0 \<Rightarrow> - int (length p0) | None \<Rightarrow> 0)
     = - int (start_shift ln pos)"
  using js_match_re_prefix_len [of "slice_to ln (character pos)"]
  by (simp add: start_shift_def split: option.splits)

lemma suffix_delta:
  "(case js_match (slice_from ln (character pos)) re_suffix of Some s0 \<Rightarrow> int (length s0) | None \<Rightarrow> 0)
     = int (end_shift ln pos)"
  using js_match_re_suffix_len [of "slice_from ln (character pos)"]
  by (simp add: end_shift_def split: option.splits)

lemma retrieveRange_eq:
  "retrieveRange ln pos =
     Inr \<lparr>start = \<lparr>line = line pos, character = character pos - start_shift ln pos\<rparr>,
          end_pos = \<lparr>line = line pos, character = character pos + end_shift ln pos\<rparr>\<rparr>"
proof -
  have "retrieveRange ln pos =
      Inr (Range \<lparr>line = line pos, character = character pos - start_shift ln pos\<rparr>
                 \<lparr>line = line pos, character = character pos + end_shift ln pos\<rparr>)"
    unfolding retrieveRange_def Let_def prefix_delta suffix_delta
    by (simp add: translate_left [OF start_shift_le] translate_right)
  also have "Range \<lparr>line = line pos, character = character pos - start_shift ln pos\<rparr>
                 \<lparr>line = line pos, character = character pos + end_shift ln pos\<rparr>
      = \<lparr>start = \<lparr>line = line pos, character = character pos - start_shift ln pos\<rparr>,
          end_pos = \<lparr>line = line pos, character = character pos + end_shift ln pos\<rparr>\<rparr>"
    using start_shift_le [of ln pos]
    by (cases "start_shift ln pos = 0 \<and> end_shift ln pos = 0")
       (auto simp: Range_def isBefore_def)
  finally show ?thesis .
qed

text \<open>
  C10. For every line and position, \<open>retrieveRange\<close> returns a range on the line of the
  position. Its start is the position moved left by the length of the longest suffix of
  the text before the cursor that is \<^verbatim>\<open>/\<close>, stars and white space to the end; its end
  is the position moved right by the length of the longest prefix of the text from the
  cursor on that is white space, stars and \<^verbatim>\<open>/\<close>; either shift is \<open>0\<close> where there is no
  such text. So the start is at or before the position, the end at or after it, and the
  range is the position alone when neither side matches.
\<close>

theorem retrieveRange_shifts:
  "\<exists>r. retrieveRange ln pos = Inr r
     \<and> line (start r) = line pos \<and> line (end_pos r) = line pos
     \<and> character (start r) + start_shift ln pos = character pos
     \<and> character (end_pos r) = character pos + end_shift ln pos
     \<and> isBeforeOrEqual (start r) pos \<and> isBeforeOrEqual pos (end_pos r)
     \<and> (start_shift ln pos = 0 \<and> end_shift ln pos = 0 \<longrightarrow> start r = pos \<and> end_pos r = pos)"
  using start_shift_le [of ln pos]
  by (simp add: retrieveRange_eq isBeforeOrEqual_def)

lemma JsdocCompletionItem_eq:
  "JsdocCompletionItem ln pos =
     Inr \<lparr>label = ''/** Autogenerated JSDoc */'', kind = Snippet, insertText = '''',
          sortText = [CHR 0x00],
          item_range = \<lparr>start = \<lparr>line = line pos, character = character pos - start_shift ln pos\<rparr>,
                         end_pos = \<lparr>line = line pos, character = character pos + end_shift ln pos\<rparr>\<rparr>,
          item_command = \<lparr>title = ''Generate JSDoc'', command = ''jsdoc-generator.generateJsdoc''\<rparr>\<rparr>"
  by (simp add: JsdocCompletionItem_def retrieveRange_eq)

lemma commands_activate:
  "commands (activate []) =
     [(''jsdoc-generator.generateJsdoc'', generateJsdoc_handler),
      (''jsdoc-generator.generateJsdocFile'', generateJsdocFile_handler),
      (''jsdoc-generator.generateJsdocFolder'', generateJsdocFolder_handler),
      (''jsdoc-generator.generateJsdocWorkspace'', generateJsdocWorkspace_handler)]"
  by (simp add: activate_def)

theorem retrieveRange_shifts_witness:
  "start_shift (ascii ''let x'') \<lparr>line = 0, character = 3\<rparr> = 0
   \<and> end_shift (ascii ''let x'') \<lparr>line = 0, character = 3\<rparr> = 0
   \<and> retrieveRange (ascii ''let x'') \<lparr>line = 0, character = 3\<rparr>
       = Inr \<lparr>start = \<lparr>line = 0, character = 3\<rparr>, end_pos = \<lparr>line = 0, character = 3\<rparr>\<rparr>"
proof -
  let ?L = "ascii ''let x''" and ?P = "\<lparr>line = 0, character = 3\<rparr>"
  have a: "start_shift ?L ?P = 0" by code_simp
  have b: "end_shift ?L ?P = 0" by code_simp
  from retrieveRange_shifts [of ?L ?P] a b
  obtain r where r: "retrieveRange ?L ?P = Inr r" "start r = ?P" "end_pos r = ?P"
    by blast
  then have "r = \<lparr>start = ?P, end_pos = ?P\<rparr>" by (cases r) simp
  with r a b show ?thesis by simp
qed

text \<open>
  C9. Every constructed \<open>JsdocCompletionItem\<close> has the label \<^verbatim>\<open>/** Autogenerated JSDoc */\<close>,
  the kind \<open>Snippet\<close>, an empty insert text, the sort text \<^verbatim>\<open>\0\<close> and a command named
  \<^verbatim>\<open>jsdoc-generator.generateJsdoc\<close>, the name under which activation registers the
  handler of the single-node generation; and the construction never throws.
\<close>

theorem JsdocCompletionItem_fields:
  "\<exists>item. JsdocCompletionItem ln pos = Inr item
     \<and> label item = ''/** Autogenerated JSDoc */''
     \<and> kind item = Snippet
     \<and> insertText item = ''''
     \<and> sortText item = [CHR 0x00]
     \<and> command (item_command item) = ''jsdoc-generator.generateJsdoc''
     \<and> map_of (commands (activate [])) (command (item_command item)) = Some generateJsdoc_handler"
  by (simp add: JsdocCompletionItem_eq commands_activate)

text \<open>
  C8. For every line of the document and every cursor position on it, the completion
  provider returns exactly one \<open>JsdocCompletionItem\<close> if the text of the line strictly before
  the cursor is optional white space, then \<^verbatim>\<open>/**\<close>, then optional white space, and
  returns \<^verbatim>\<open>null\<close> in every other case.
\<close>

theorem provideCompletionItems_opening:
  assumes "line pos < length document"
  shows "(jsdoc_opening (slice_to (document ! line pos) (character pos)) \<longrightarrow>
            (\<exists>item. JsdocCompletionItem (document ! line pos) pos = Inr item
               \<and> provideCompletionItems document pos = Inr (Some [item])))
       \<and> (\<not> jsdoc_opening (slice_to (document ! line pos) (character pos)) \<longrightarrow>
            provideCompletionItems document pos = Inr None)"
proof (cases "jsdoc_opening (slice_to (document ! line pos) (character pos))")
  case True
  then obtain y where "js_match (slice_to (document ! line pos) (character pos)) re_opening = Some y"
    using js_match_re_opening [of "slice_to (document ! line pos) (character pos)"] by blast
  then show ?thesis
    using assms True
    by (simp add: provideCompletionItems_def lineAt_def Let_def JsdocCompletionItem_eq)
next
  case False
  then have "js_match (slice_to (document ! line pos) (character pos)) re_opening = None"
    using js_match_re_opening [of "slice_to (document ! line pos) (character pos)"] by blast
  then show ?thesis
    using assms False by (simp add: provideCompletionItems_def lineAt_def Let_def)
qed

theorem provideCompletionItems_opening_witness:
  "provideCompletionItems [ascii ''let x;'', ascii ''  /** */''] \<lparr>line = 1, character = 5\<rparr>
     = Inr (Some [\<lparr>label = ''/** Autogenerated JSDoc */'', kind = Snippet, insertText = '''',
                   sortText = [CHR 0x00],
                   item_range = \<lparr>start = \<lparr>line = 1, character = 2\<rparr>,
                                  end_pos = \<lparr>line = 1, character = 8\<rparr>\<rparr>,
                   item_command = \<lparr>title = ''Generate JSDoc'',
                                    command = ''jsdoc-generator.generateJsdoc''\<rparr>\<rparr>])
   \<and> provideCompletionItems [ascii ''let x;'', ascii ''  /** */''] \<lparr>line = 1, character = 4\<rparr>
       = Inr None"
proof -
  let ?D = "[ascii ''let x;'', ascii ''  /** */'']"
  let ?P = "\<lparr>line = 1, character = 5\<rparr>" and ?Q = "\<lparr>line = 1, character = 4\<rparr>"
  have lp: "line ?P < length ?D" and lq: "line ?Q < length ?D" by simp_all
  have op: "jsdoc_opening (slice_to (?D ! line ?P) (character ?P))" by code_simp
  have oq: "\<not> jsdoc_opening (slice_to (?D ! line ?Q) (character ?Q))" by code_simp
  have it: "JsdocCompletionItem (?D ! line ?P) ?P =
      Inr \<lparr>label = ''/** Autogenerated JSDoc */'', kind = Snippet, insertText = '''',
           sortText = [CHR 0x00],
           item_range = \<lparr>start = \<lparr>line = 1, character = 2\<rparr>,
                          end_pos = \<lparr>line = 1, character = 8\<rparr>\<rparr>,
           item_command = \<lparr>title = ''Generate JSDoc'',
                            command = ''jsdoc-generator.generateJsdoc''\<rparr>\<rparr>"
    by code_simp
  from provideCompletionItems_opening [OF lp] op it
  have 1: "provideCompletionItems ?D ?P = Inr (Some [\<lparr>label = ''/** Autogenerated JSDoc */'', kind = Snippet, insertText = '''',
           sortText = [CHR 0x00],
           item_range = \<lparr>start = \<lparr>line = 1, character = 2\<rparr>,
                          end_pos = \<lparr>line = 1, character = 8\<rparr>\<rparr>,
           item_command = \<lparr>title = ''Generate JSDoc'',
                            command = ''jsdoc-generator.generateJsdoc''\<rparr>\<rparr>])"
    by auto
  from provideCompletionItems_opening [OF lq] oq
  have 2: "provideCompletionItems ?D ?Q = Inr None" by blast
  from 1 2 show ?thesis by (rule conjI)
qed

lemma list_all_takeWhile: "list_all P (takeWhile P xs)"
  unfolding list_all_iff by (blast dest: set_takeWhileD)

lemma jsdoc_opening_iff:
  "jsdoc_opening p \<longleftrightarrow>
     (\<exists>a b. p = a @ [slash, star, star] @ b \<and> list_all is_space a \<and> list_all is_space b)"
proof
  assume o: "jsdoc_opening p"
  let ?a = "takeWhile is_space p" and ?r = "dropWhile is_space p"
  have "p = ?a @ ?r" by simp
  also have "?r = take 3 ?r @ drop 3 ?r" by simp
  also have "take 3 ?r = [slash, star, star]" using o by (simp add: jsdoc_opening_def Let_def)
  finally have "p = ?a @ [slash, star, star] @ drop 3 ?r" .
  moreover have "list_all is_space ?a" by (rule list_all_takeWhile)
  moreover have "list_all is_space (drop 3 ?r)" using o by (simp add: jsdoc_opening_def Let_def)
  ultimately show "\<exists>a b. p = a @ [slash, star, star] @ b \<and> list_all is_space a \<and> list_all is_space b"
    by (intro exI conjI)
next
  assume "\<exists>a b. p = a @ [slash, star, star] @ b \<and> list_all is_space a \<and> list_all is_space b"
  then obtain a b where p: "p = a @ [slash, star, star] @ b"
    and a: "list_all is_space a" and b: "list_all is_space b" by blast
  have "dropWhile is_space p = [slash, star, star] @ b"
    unfolding p using a by (simp add: dropWhile_append2 list_all_iff not_space_slash)
  then show "jsdoc_opening p" using b by (simp add: jsdoc_opening_def)
qed

lemma list_all_is_star: "list_all is_star st \<longleftrightarrow> st = replicate (length st) star"
  by (induction st) (auto simp: is_star_def)

lemma slash_stars_spaces_iff:
  "slash_stars_spaces t \<longleftrightarrow>
     (\<exists>n w. t = slash # replicate n star @ w \<and> list_all is_space w)"
proof
  assume s: "slash_stars_spaces t"
  then obtain cs where t: "t = slash # cs" and w: "list_all is_space (dropWhile is_star cs)"
    by (cases t) (auto simp: slash_stars_spaces_def)
  have "cs = takeWhile is_star cs @ dropWhile is_star cs" by simp
  also have "takeWhile is_star cs = replicate (length (takeWhile is_star cs)) star"
    using list_all_takeWhile [of is_star cs] by (simp only: list_all_is_star [symmetric])
  finally have "t = slash # replicate (length (takeWhile is_star cs)) star @ dropWhile is_star cs"
    using t by simp
  with w show "\<exists>n w. t = slash # replicate n star @ w \<and> list_all is_space w" by blast
next
  assume "\<exists>n w. t = slash # replicate n star @ w \<and> list_all is_space w"
  then obtain n w where t: "t = slash # replicate n star @ w" and w: "list_all is_space w" by blast
  have "dropWhile is_star (replicate n star @ w) = dropWhile is_star w"
    by (induction n) (simp_all add: is_star_def)
  also have "\<dots> = w"
    using w by (cases w) (auto simp: is_star_def not_space_star)
  finally have "dropWhile is_star (replicate n star @ w) = w" .
  then show "slash_stars_spaces t" using w by (simp add: slash_stars_spaces_def t)
qed

lemma spaces_stars_slash_iff:
  "spaces_stars_slash t \<longleftrightarrow>
     (\<exists>w n. t = w @ replicate n star @ [slash] \<and> list_all is_space w)"
proof
  assume "spaces_stars_slash t"
  from spaces_stars_slash_decomp [OF this] obtain w st
    where "t = w @ st @ [slash]" "list_all is_space w" "list_all is_star st" by blast
  then have "t = w @ replicate (length st) star @ [slash] \<and> list_all is_space w"
    using list_all_is_star [of st] by simp
  then show "\<exists>w n. t = w @ replicate n star @ [slash] \<and> list_all is_space w" by blast
next
  assume "\<exists>w n. t = w @ replicate n star @ [slash] \<and> list_all is_space w"
  then obtain w n where t: "t = w @ replicate n star @ [slash]" and w: "list_all is_space w"
    by blast
  have st: "list_all is_star (replicate n star)" by (simp add: list_all_is_star)
  show "spaces_stars_slash t"
    unfolding t spaces_stars_slash_def
    using dropWhile_space_stars_slash(1,3) [OF w st, of "[]"] by simp
qed

section \<open>The commands\<close>

lemmas host_defs =
  withProgress_def lazyInstantiateJsdocGenerator_def call_generator_def emit_def
  showErrorMessage_def new_WorkspaceEdit_def notification_def added_def

lemmas handler_defs =
  generateJsdoc_handler_def generateJsdocFile_handler_def generateJsdocFolder_handler_def
  generateJsdocWorkspace_handler_def generateJsdoc_task_def generateJsdocFile_task_def
  generateJsdocFolder_task_def generateJsdocWorkspace_task_def

lemma executeCommand_activate:
  "executeCommand (activate []) ''jsdoc-generator.generateJsdoc'' arg w
     = Some (generateJsdoc_handler arg w)"
  "executeCommand (activate []) ''jsdoc-generator.generateJsdocFile'' arg w
     = Some (generateJsdocFile_handler arg w)"
  "executeCommand (activate []) ''jsdoc-generator.generateJsdocFolder'' arg w
     = Some (generateJsdocFolder_handler arg w)"
  "executeCommand (activate []) ''jsdoc-generator.generateJsdocWorkspace'' arg w
     = Some (generateJsdocWorkspace_handler arg w)"
  by (simp_all add: executeCommand_def commands_activate)

text \<open>
  C2. The command \<^verbatim>\<open>generateJsdoc\<close>: with no active text editor the error message
  \<^verbatim>\<open>Unable to generate JSDoc: no editor has been selected.\<close> is shown, no entry point of
  the generator is called and the task of the handler returns a resolved promise; with an
  active editor the generator is called on that editor and no error message is shown.
\<close>

theorem generateJsdoc_command:
  "\<exists>w'. executeCommand (activate []) ''jsdoc-generator.generateJsdoc'' arg w = Some w'
     \<and> (case activeTextEditor w of
          None \<Rightarrow>
            errorMessages (added w w') = [''Unable to generate JSDoc: no editor has been selected.'']
            \<and> calls (added w w') = []
            \<and> returned (added w w') = [Promise_resolve]
        | Some ed \<Rightarrow>
            (\<exists>g p t. calls (added w w') = [(g, GenerateJsdoc p t ed)])
            \<and> errorMessages (added w w') = [])"
  by (cases "jsdocGenerator w"; cases "activeTextEditor w")
     (simp_all add: executeCommand_activate handler_defs host_defs Let_def)

text \<open>
  C3. The command \<^verbatim>\<open>generateJsdocFile\<close>: with a file Uri the generator runs on a
  \<open>TextFile\<close> built from a \<open>WorkspaceEdit\<close> made by this invocation and that Uri; with no
  Uri and an active editor it runs on a \<open>TextFile\<close> built from the editor; with neither the
  error message \<^verbatim>\<open>Unable to generate JSDoc: no valid file has been selected.\<close> is shown,
  the generator is not called and the task returns a resolved promise.
\<close>

theorem generateJsdocFile_command:
  "\<exists>w'. executeCommand (activate []) ''jsdoc-generator.generateJsdocFile'' file w = Some w'
     \<and> (case file of
          Some f \<Rightarrow>
            (\<exists>g p t we. calls (added w w') = [(g, GenerateJsdocFile p t (TextFile_edit we f))]
                \<and> workspaceEdits (added w w') = [we])
            \<and> errorMessages (added w w') = []
        | None \<Rightarrow>
            (case activeTextEditor w of
               Some ed \<Rightarrow>
                 (\<exists>g p t. calls (added w w') = [(g, GenerateJsdocFile p t (TextFile_editor ed))])
                 \<and> workspaceEdits (added w w') = []
                 \<and> errorMessages (added w w') = []
             | None \<Rightarrow>
                 errorMessages (added w w')
                   = [''Unable to generate JSDoc: no valid file has been selected.'']
                 \<and> calls (added w w') = []
                 \<and> returned (added w w') = [Promise_resolve]))"
  by (cases "jsdocGenerator w"; cases "activeTextEditor w"; cases "file")
     (simp_all add: executeCommand_activate handler_defs host_defs Let_def)

text \<open>
  C5. \<open>getConfig K d\<close> reads the settings as they are at the call and returns the value
  stored under \<^verbatim>\<open>jsdoc-generator.\<close> followed by the name of \<open>K\<close>, or \<open>d\<close> when there is none;
  it leaves the settings, and the rest of the state, as they were; a call made after the
  settings changed returns the new value.
\<close>

theorem getConfig_reads:
  "fst (getConfig K d w)
     = (case configuration w (''jsdoc-generator.'' @ key_name K) of Some v \<Rightarrow> v | None \<Rightarrow> d)
   \<and> snd (getConfig K d w) = w
   \<and> fst (getConfig K d ((snd (getConfig K d w))\<lparr>configuration := c\<rparr>))
       = (case c (''jsdoc-generator.'' @ key_name K) of Some v \<Rightarrow> v | None \<Rightarrow> d)"
  by (simp add: getConfig_def getConfiguration_def get_section_def split: option.splits)

section \<open>The engine across invocations\<close>

lemma created_append: "created (xs @ ys) = created xs @ created ys"
  by (induction xs rule: created.induct) simp_all

lemma calls_append: "calls (xs @ ys) = calls xs @ calls ys"
  by (induction xs rule: calls.induct) simp_all

lemma shared_engine_editor: "shared_engine (w\<lparr>activeTextEditor := ed\<rparr>) = shared_engine w"
  by (simp add: shared_engine_def split: option.splits)

lemma shared_engine_generateJsdoc:
  "shared_engine w \<Longrightarrow> shared_engine (generateJsdoc_handler arg w)"
  by (cases "jsdocGenerator w"; cases "activeTextEditor w")
     (simp_all add: shared_engine_def handler_defs host_defs Let_def created_append calls_append)

lemma shared_engine_generateJsdocFile:
  "shared_engine w \<Longrightarrow> shared_engine (generateJsdocFile_handler arg w)"
  by (cases "jsdocGenerator w"; cases "activeTextEditor w"; cases arg)
     (simp_all add: shared_engine_def handler_defs host_defs Let_def created_append calls_append)

lemma shared_engine_generateJsdocFolder:
  "shared_engine w \<Longrightarrow> shared_engine (generateJsdocFolder_handler arg w)"
  by (cases "jsdocGenerator w")
     (simp_all add: shared_engine_def handler_defs host_defs Let_def created_append calls_append)

lemma shared_engine_generateJsdocWorkspace:
  "shared_engine w \<Longrightarrow> shared_engine (generateJsdocWorkspace_handler arg w)"
  by (cases "jsdocGenerator w")
     (simp_all add: shared_engine_def handler_defs host_defs Let_def created_append calls_append)

lemma shared_engine_executeCommand:
  assumes "shared_engine w" and "executeCommand (activate []) name arg w = Some w'"
  shows "shared_engine w'"
proof -
  from assms(2) have "w' = generateJsdoc_handler arg w \<or> w' = generateJsdocFile_handler arg w
      \<or> w' = generateJsdocFolder_handler arg w \<or> w' = generateJsdocWorkspace_handler arg w"
    by (auto simp: executeCommand_def commands_activate split: if_splits)
  then show ?thesis
    using assms(1) shared_engine_generateJsdoc shared_engine_generateJsdocFile
      shared_engine_generateJsdocFolder shared_engine_generateJsdocWorkspace
    by blast
qed

lemma shared_engine_run:
  "shared_engine w \<Longrightarrow> run (activate []) invs w = Some w' \<Longrightarrow> shared_engine w'"
proof (induction invs arbitrary: w)
  case Nil
  then show ?case by simp
next
  case (Cons inv invs)
  obtain name arg ed where inv: "inv = (name, arg, ed)" by (cases inv)
  from Cons.prems(2) obtain w1
    where w1: "executeCommand (activate []) name arg (w\<lparr>activeTextEditor := ed\<rparr>) = Some w1"
      and r: "run (activate []) invs w1 = Some w'"
    by (auto simp: inv split: option.splits)
  have "shared_engine w1"
    using shared_engine_executeCommand [OF _ w1] Cons.prems(1) by (simp add: shared_engine_editor)
  then show ?case using r by (rule Cons.IH)
qed

text \<open>
  C1 (as the code has it). The engine is a module-level variable, made by the first
  command invocation and shared by all later ones: over any sequence of command
  invocations that starts where the variable is unset and nothing has been called, at
  most one engine is created, and every call of the generator is on that engine.
\<close>

theorem engine_shared:
  assumes "jsdocGenerator w = None" and "trace w = []"
    and "run (activate []) invs w = Some w'"
  shows "length (created (trace w')) \<le> 1
       \<and> list_all (\<lambda>(g, c). created (trace w') = [g]) (calls (trace w'))"
proof -
  have "shared_engine w" using assms(1,2) by (simp add: shared_engine_def)
  then have "shared_engine w'" using assms(3) by (rule shared_engine_run)
  then show ?thesis
    by (cases "jsdocGenerator w'") (auto simp: shared_engine_def list_all_iff)
qed

theorem engine_shared_witness:
  "(case run (activate [])
           [(''jsdoc-generator.generateJsdoc'', None, Some (TextEditor 7)),
            (''jsdoc-generator.generateJsdocWorkspace'', None, None)] world0 of
      None \<Rightarrow> False
    | Some w' \<Rightarrow>
        created (trace w') = [Engine 2]
        \<and> map fst (calls (trace w')) = [Engine 2, Engine 2]
        \<and> length (created (trace w')) \<le> 1
        \<and> list_all (\<lambda>(g, c). created (trace w') = [g]) (calls (trace w')))"
proof -
  let ?invs = "[(''jsdoc-generator.generateJsdoc'', None, Some (TextEditor 7)),
            (''jsdoc-generator.generateJsdocWorkspace'', None, None)]"
  have r: "run (activate []) ?invs world0 =
      Some (generateJsdocWorkspace_handler None
             ((generateJsdoc_handler None (world0\<lparr>activeTextEditor := Some (TextEditor 7)\<rparr>))
                \<lparr>activeTextEditor := None\<rparr>))"
    by (simp add: executeCommand_activate)
  have a: "jsdocGenerator world0 = None" and b: "trace world0 = []"
    by (simp_all add: world0_def)
  note t = engine_shared [OF a b r]
  have c: "created (trace (generateJsdocWorkspace_handler None
             ((generateJsdoc_handler None (world0\<lparr>activeTextEditor := Some (TextEditor 7)\<rparr>))
                \<lparr>activeTextEditor := None\<rparr>))) = [Engine 2]"
    by (simp add: world0_def handler_defs host_defs Let_def)
  have d: "map fst (calls (trace (generateJsdocWorkspace_handler None
             ((generateJsdoc_handler None (world0\<lparr>activeTextEditor := Some (TextEditor 7)\<rparr>))
                \<lparr>activeTextEditor := None\<rparr>)))) = [Engine 2, Engine 2]"
    by (simp add: world0_def handler_defs host_defs Let_def)
  show ?thesis unfolding r using t c d by simp
qed

text \<open>
  The claim C1 as it is written fails: the module variable \<open>jsdocGenerator\<close> is process-wide
  mutable state. The first invocation below (the single-node command) creates the engine
  \<open>Engine 2\<close>; the second (the workspace command) creates none and calls the generator on
  \<open>Engine 2\<close>, the object the first one created.
\<close>

theorem engine_per_invocation_counterexample:
  "created (added (world0\<lparr>activeTextEditor := Some (TextEditor 7)\<rparr>)
                  (generateJsdoc_handler None (world0\<lparr>activeTextEditor := Some (TextEditor 7)\<rparr>)))
     = [Engine 2]
   \<and> created (added (generateJsdoc_handler None (world0\<lparr>activeTextEditor := Some (TextEditor 7)\<rparr>))
                    (generateJsdocWorkspace_handler None
                       (generateJsdoc_handler None (world0\<lparr>activeTextEditor := Some (TextEditor 7)\<rparr>))))
     = []
   \<and> calls (added (generateJsdoc_handler None (world0\<lparr>activeTextEditor := Some (TextEditor 7)\<rparr>))
                  (generateJsdocWorkspace_handler None
                     (generateJsdoc_handler None (world0\<lparr>activeTextEditor := Some (TextEditor 7)\<rparr>))))
     = [(Engine 2, GenerateJsdocWorkspace (Progress 3) (CancellationToken 4) None)]"
  by (simp add: world0_def handler_defs host_defs Let_def)

text \<open>
  C4. Activation registers exactly four commands. The handler of each runs its task in a
  progress that can be cancelled, and every call of the generator the task makes carries
  the progress reporter and the cancellation token of that progress: the node command
  calls \<open>generateJsdoc\<close> (unless no editor is active), the file command
  \<open>generateJsdocFile\<close> (unless it has neither a file nor an active editor), the folder
  command \<open>generateJsdocWorkspace\<close> with the folder it was given, and the workspace
  command \<open>generateJsdocWorkspace\<close> with no folder.
\<close>

theorem activate_commands:
  "map fst (commands (activate []))
     = [''jsdoc-generator.generateJsdoc'', ''jsdoc-generator.generateJsdocFile'',
        ''jsdoc-generator.generateJsdocFolder'', ''jsdoc-generator.generateJsdocWorkspace'']
   \<and> (\<exists>w' opts p t mid th.
         executeCommand (activate []) ''jsdoc-generator.generateJsdoc'' arg w = Some w'
         \<and> added w w' = WithProgress opts p t # mid @ [TaskReturned th] \<and> cancellable opts
         \<and> progresses mid = [] \<and> returned mid = []
         \<and> (\<forall>c\<in>set (map snd (calls mid)). \<exists>ed. c = GenerateJsdoc p t ed)
         \<and> (calls mid = [] \<longleftrightarrow> activeTextEditor w = None))
   \<and> (\<exists>w' opts p t mid th.
         executeCommand (activate []) ''jsdoc-generator.generateJsdocFile'' arg w = Some w'
         \<and> added w w' = WithProgress opts p t # mid @ [TaskReturned th] \<and> cancellable opts
         \<and> progresses mid = [] \<and> returned mid = []
         \<and> (\<forall>c\<in>set (map snd (calls mid)). \<exists>f. c = GenerateJsdocFile p t f)
         \<and> (calls mid = [] \<longleftrightarrow> arg = None \<and> activeTextEditor w = None))
   \<and> (\<exists>w' opts p t mid th.
         executeCommand (activate []) ''jsdoc-generator.generateJsdocFolder'' arg w = Some w'
         \<and> added w w' = WithProgress opts p t # mid @ [TaskReturned th] \<and> cancellable opts
         \<and> progresses mid = [] \<and> returned mid = []
         \<and> map snd (calls mid) = [GenerateJsdocWorkspace p t arg])
   \<and> (\<exists>w' opts p t mid th.
         executeCommand (activate []) ''jsdoc-generator.generateJsdocWorkspace'' arg w = Some w'
         \<and> added w w' = WithProgress opts p t # mid @ [TaskReturned th] \<and> cancellable opts
         \<and> progresses mid = [] \<and> returned mid = []
         \<and> map snd (calls mid) = [GenerateJsdocWorkspace p t None])"
proof (intro conjI)
  show "map fst (commands (activate []))
     = [''jsdoc-generator.generateJsdoc'', ''jsdoc-generator.generateJsdocFile'',
        ''jsdoc-generator.generateJsdocFolder'', ''jsdoc-generator.generateJsdocWorkspace'']"
    by (simp add: commands_activate)
next
  show "\<exists>w' opts p t mid th.
         executeCommand (activate []) ''jsdoc-generator.generateJsdoc'' arg w = Some w'
         \<and> added w w' = WithProgress opts p t # mid @ [TaskReturned th] \<and> cancellable opts
         \<and> progresses mid = [] \<and> returned mid = []
         \<and> (\<forall>c\<in>set (map snd (calls mid)). \<exists>ed. c = GenerateJsdoc p t ed)
         \<and> (calls mid = [] \<longleftrightarrow> activeTextEditor w = None)"
    by (cases "jsdocGenerator w"; cases "activeTextEditor w")
       (simp_all add: executeCommand_activate handler_defs host_defs Let_def)
next
  show "\<exists>w' opts p t mid th.
         executeCommand (activate []) ''jsdoc-generator.generateJsdocFile'' arg w = Some w'
         \<and> added w w' = WithProgress opts p t # mid @ [TaskReturned th] \<and> cancellable opts
         \<and> progresses mid = [] \<and> returned mid = []
         \<and> (\<forall>c\<in>set (map snd (calls mid)). \<exists>f. c = GenerateJsdocFile p t f)
         \<and> (calls mid = [] \<longleftrightarrow> arg = None \<and> activeTextEditor w = None)"
    by (cases "jsdocGenerator w"; cases "activeTextEditor w"; cases arg)
       (simp_all add: executeCommand_activate handler_defs host_defs Let_def)
next
  show "\<exists>w' opts p t mid th.
         executeCommand (activate []) ''jsdoc-generator.generateJsdocFolder'' arg w = Some w'
         \<and> added w w' = WithProgress opts p t # mid @ [TaskReturned th] \<and> cancellable opts
         \<and> progresses mid = [] \<and> returned mid = []
         \<and> map snd (calls mid) = [GenerateJsdocWorkspace p t arg]"
    by (cases "jsdocGenerator w")
       (simp_all add: executeCommand_activate handler_defs host_defs Let_def)
next
  show "\<exists>w' opts p t mid th.
         executeCommand (activate []) ''jsdoc-generator.generateJsdocWorkspace'' arg w = Some w'
         \<and> added w w' = WithProgress opts p t # mid @ [TaskReturned th] \<and> cancellable opts
         \<and> progresses mid = [] \<and> returned mid = []
         \<and> map snd (calls mid) = [GenerateJsdocWorkspace p t None]"
    by (cases "jsdocGenerator w")
       (simp_all add: executeCommand_activate handler_defs host_defs Let_def)
qed

theorem activate_commands_witness:
  "calls (added (world0\<lparr>activeTextEditor := Some (TextEditor 7)\<rparr>)
            (generateJsdoc_handler (Some ''/src'') (world0\<lparr>activeTextEditor := Some (TextEditor 7)\<rparr>)))
     = [(Engine 2, GenerateJsdoc (Progress 0) (CancellationToken 1) (TextEditor 7))]
   \<and> calls (added (world0\<lparr>activeTextEditor := Some (TextEditor 7)\<rparr>)
            (generateJsdocFolder_handler (Some ''/src'') (world0\<lparr>activeTextEditor := Some (TextEditor 7)\<rparr>)))
     = [(Engine 2, GenerateJsdocWorkspace (Progress 0) (CancellationToken 1) (Some ''/src''))]"
  using activate_commands [of "Some ''/src''" "world0\<lparr>activeTextEditor := Some (TextEditor 7)\<rparr>"]
  by (simp add: world0_def handler_defs host_defs Let_def)

theorem generateJsdoc_command_witness:
  "errorMessages (added world0 (generateJsdoc_handler None world0))
     = [''Unable to generate JSDoc: no editor has been selected.'']
   \<and> calls (added world0 (generateJsdoc_handler None world0)) = []
   \<and> returned (added world0 (generateJsdoc_handler None world0)) = [Promise_resolve]"
  using generateJsdoc_command [of None world0]
  by (simp add: executeCommand_activate world0_def)

theorem generateJsdocFile_command_witness:
  "calls (added world0 (generateJsdocFile_handler (Some ''/a.ts'') world0))
     = [(Engine 2, GenerateJsdocFile (Progress 0) (CancellationToken 1)
                     (TextFile_edit (WorkspaceEdit 3) ''/a.ts''))]
   \<and> workspaceEdits (added world0 (generateJsdocFile_handler (Some ''/a.ts'') world0))
     = [WorkspaceEdit 3]
   \<and> errorMessages (added world0 (generateJsdocFile_handler None world0))
     = [''Unable to generate JSDoc: no valid file has been selected.'']"
  using generateJsdocFile_command [of "Some ''/a.ts''" world0]
    generateJsdocFile_command [of None world0]
  by (simp add: world0_def handler_defs host_defs Let_def)

section \<open>Parentheses around composite types\<close>

text \<open>
  C7. A union or intersection that is the element of an array, or that is marked
  optional (or required), is rendered in parentheses whether
  \<open>includeParenthesisForMultipleTypes\<close> is enabled or not.
\<close>

theorem composite_parenthesized:
  assumes "is_composite td"
  shows "render_type flag forced (Array td) = ''('' @ members_text flag td @ '')'' @ ''[]''
       \<and> render_marked flag Optional td = ''('' @ members_text flag td @ '')'' @ ''?''
       \<and> render_marked flag Required td = ''('' @ members_text flag td @ '')'' @ ''!''"
  using assms by (cases td) (simp_all add: render_marked_def parens_def)

theorem composite_parenthesized_witness:
  "render_type False False (Array (Union [Primitive ''string'', Primitive ''number'']))
     = ''(string | number)[]''
   \<and> render_marked False Optional (Union [Primitive ''string'', Primitive ''number''])
     = ''(string | number)?''
   \<and> render_type False False (Union [Primitive ''string'', Primitive ''number''])
     = ''string | number''"
  using composite_parenthesized [of "Union [Primitive ''string'', Primitive ''number'']" False False]
  by (simp add: parens_def)

end
